theory Spec2Isabelle
  imports Main "HOL-Library.AList" "HOL-Library.Sublist" "HOL-Library.Word"
begin

section \<open>The resource library of \<open>src/App.js\<close>\<close>

text \<open>
  \<open>App.js\<close> is one React component. It loads a JSON array of resource objects,
  keeps a search term and three filter selections, recomputes the filtered list in an
  effect, and shows one selected resource in a viewer. This theory embeds the component's
  state, its handlers, its two effects and the parts of its render function that decide
  what is shown.

  Scope of the model. A JavaScript value is one of the scalar JSON values or
  \<open>undefined\<close> (what reading a missing property gives); arrays and objects as
  attribute values are not modelled. A number is an integer. A string is the list of its
  UTF-16 code units. \<open>String.prototype.toLowerCase\<close> is a function of the JavaScript
  runtime and not of \<open>App.js\<close>; it is a parameter \<open>lower\<close> of the model, so that
  every statement holds for whatever the runtime's function does. The collection is a
  list of objects.
\<close>

subsection \<open>JavaScript values and objects\<close>

type_synonym code_unit = "16 word"

type_synonym jsstring = "code_unit list"

text \<open>A string literal of the code, all of whose characters are ASCII.\<close>

definition js :: "string \<Rightarrow> jsstring" where
  "js s = map of_char s"

datatype jsval = JUndefined | JNull | JBool bool | JNum int | JStr jsstring

text \<open>An object is its list of properties in insertion order; reading a property that
  is not there gives \<open>undefined\<close>. Only an object's own properties are modelled; the
  keys \<open>App.js\<close> reads are \<open>id\<close>, \<open>title\<close>, \<open>topic\<close>, \<open>type\<close>, \<open>conference\<close>
  and \<open>url\<close>.\<close>

type_synonym obj = "(string \<times> jsval) list"

definition getProp :: "obj \<Rightarrow> string \<Rightarrow> jsval" where
  "getProp ob k = (case map_of ob k of None \<Rightarrow> JUndefined | Some v \<Rightarrow> v)"

text \<open>\<open>!v\<close> is the negation of \<open>truthy v\<close>.\<close>

fun truthy :: "jsval \<Rightarrow> bool" where
  "truthy JUndefined = False"
| "truthy JNull = False"
| "truthy (JBool b) = b"
| "truthy (JNum n) = (n \<noteq> 0)"
| "truthy (JStr s) = (s \<noteq> [])"

text \<open>On these values \<open>===\<close> is equality of the values, and so is the comparison a
  \<open>Set\<close> makes.\<close>

datatype js_error = TypeError | HttpError nat | NetworkError | SyntaxError

subsection \<open>Strings\<close>

text \<open>\<open>s.toLowerCase()\<close>. The function \<open>lower\<close> stands for the runtime's case
  mapping of a string that has characters; lowering the empty string gives the empty
  string.\<close>

definition toLowerCase :: "(jsstring \<Rightarrow> jsstring) \<Rightarrow> jsstring \<Rightarrow> jsstring" where
  "toLowerCase lower s = (if s = [] then [] else lower s)"

fun startsWith :: "jsstring \<Rightarrow> jsstring \<Rightarrow> bool" where
  "startsWith t [] = True"
| "startsWith [] (c # s) = False"
| "startsWith (d # t) (c # s) = (d = c \<and> startsWith t s)"

text \<open>\<open>t.includes(s)\<close>: does \<open>s\<close> occur in \<open>t\<close> at some position.\<close>

fun includes_js :: "jsstring \<Rightarrow> jsstring \<Rightarrow> bool" where
  "includes_js [] s = (s = [])"
| "includes_js (d # t) s = (startsWith (d # t) s \<or> includes_js t s)"

text \<open>\<open>v.toLowerCase()\<close> on a value: only a string has the method. On
  \<open>undefined\<close> and \<open>null\<close> the property read throws, on a boolean or a number the
  call of the missing method throws; each is a \<open>TypeError\<close>.\<close>

fun toLowerCase_val :: "(jsstring \<Rightarrow> jsstring) \<Rightarrow> jsval \<Rightarrow> js_error + jsstring" where
  "toLowerCase_val lower (JStr s) = Inr (toLowerCase lower s)"
| "toLowerCase_val lower v = Inl TypeError"

subsection \<open>The component's state\<close>

record app_state =
  resources :: "obj list"
  filteredResources :: "obj list"
  searchTerm :: jsstring
  filters :: obj
  isLoading :: bool
  error :: "string option"
  selectedResource :: "obj option"

definition noFilters :: obj where
  "noFilters = [(''topic'', JNull), (''type'', JNull), (''conference'', JNull)]"

text \<open>The initial values of the \<open>useState\<close> calls (lines 15-20 and 66).\<close>

definition initialState :: app_state where
  "initialState =
     \<lparr> resources = [], filteredResources = [], searchTerm = [], filters = noFilters,
       isLoading = True, error = None, selectedResource = None \<rparr>"

subsection \<open>The filter engine (lines 43-51)\<close>

text \<open>The predicate handed to \<open>resources.filter\<close>. \<open>&&\<close> evaluates the title
  test first, so a title without \<open>toLowerCase\<close> throws before any dimension is
  looked at.\<close>

definition dimensionPasses :: "obj \<Rightarrow> obj \<Rightarrow> string \<Rightarrow> bool" where
  "dimensionPasses fs resource k =
     (\<not> truthy (getProp fs k) \<or> getProp resource k = getProp fs k)"

definition resourcePasses ::
  "(jsstring \<Rightarrow> jsstring) \<Rightarrow> jsstring \<Rightarrow> obj \<Rightarrow> obj \<Rightarrow> js_error + bool" where
  "resourcePasses lower s fs resource =
     (case toLowerCase_val lower (getProp resource ''title'') of
        Inl e \<Rightarrow> Inl e
      | Inr t \<Rightarrow>
          Inr (includes_js t (toLowerCase lower s)
               \<and> dimensionPasses fs resource ''topic''
               \<and> dimensionPasses fs resource ''type''
               \<and> dimensionPasses fs resource ''conference''))"

text \<open>\<open>Array.prototype.filter\<close> with a predicate that may throw: the elements are
  tested from the first on, and the first exception ends the call.\<close>

fun filter_js :: "('a \<Rightarrow> js_error + bool) \<Rightarrow> 'a list \<Rightarrow> js_error + 'a list" where
  "filter_js p [] = Inr []"
| "filter_js p (x # xs) =
     (case p x of
        Inl e \<Rightarrow> Inl e
      | Inr b \<Rightarrow>
          (case filter_js p xs of
             Inl e \<Rightarrow> Inl e
           | Inr ys \<Rightarrow> Inr (if b then x # ys else ys)))"

definition filterResources ::
  "(jsstring \<Rightarrow> jsstring) \<Rightarrow> obj list \<Rightarrow> jsstring \<Rightarrow> obj \<Rightarrow> js_error + obj list" where
  "filterResources lower rs s fs = filter_js (resourcePasses lower s fs) rs"

text \<open>The effect itself: compute the filtered list and store it. An exception that
  leaves the effect is the result \<open>Inl\<close>.\<close>

definition filterEffect :: "(jsstring \<Rightarrow> jsstring) \<Rightarrow> app_state \<Rightarrow> js_error + app_state" where
  "filterEffect lower st =
     (case filterResources lower (resources st) (searchTerm st) (filters st) of
        Inl e \<Rightarrow> Inl e
      | Inr filtered \<Rightarrow> Inr (st\<lparr>filteredResources := filtered\<rparr>))"

subsection \<open>The handlers (lines 53-70)\<close>

definition handleSearch :: "jsstring \<Rightarrow> app_state \<Rightarrow> app_state" where
  "handleSearch v st = st\<lparr>searchTerm := v\<rparr>"

text \<open>\<open>{ ...prev, [filterType]: value }\<close>: a property that is there keeps its place
  and gets the new value, a new one is added at the end.\<close>

definition handleFilterChange :: "string \<Rightarrow> jsval \<Rightarrow> app_state \<Rightarrow> app_state" where
  "handleFilterChange filterType v st =
     st\<lparr>filters := AList.update filterType v (filters st)\<rparr>"

definition resetFilters :: "app_state \<Rightarrow> app_state" where
  "resetFilters st = st\<lparr>filters := noFilters, searchTerm := []\<rparr>"

definition openResource :: "obj \<Rightarrow> app_state \<Rightarrow> app_state" where
  "openResource resource st = st\<lparr>selectedResource := Some resource\<rparr>"

subsection \<open>The loader (lines 22-41)\<close>

text \<open>What \<open>fetch\<close> can do: reject, or resolve with a response of some status whose
  body parses as a collection or does not. \<open>response.ok\<close> is true for the statuses
  200 to 299.\<close>

record response =
  status :: nat
  json :: "obj list option"

datatype fetch_outcome = Rejected | Responded response

definition response_ok :: "response \<Rightarrow> bool" where
  "response_ok r = (200 \<le> status r \<and> status r \<le> 299)"

text \<open>The \<open>try\<close> block up to the parsed data; each way out through an exception is an
  \<open>Inl\<close>.\<close>

definition fetchData :: "fetch_outcome \<Rightarrow> js_error + obj list" where
  "fetchData outcome =
     (case outcome of
        Rejected \<Rightarrow> Inl NetworkError
      | Responded r \<Rightarrow>
          if \<not> response_ok r then Inl (HttpError (status r))
          else (case json r of None \<Rightarrow> Inl SyntaxError | Some d \<Rightarrow> Inr d))"

definition loadFailedMessage :: string where
  "loadFailedMessage = ''Failed to load resources. Please try again later.''"

definition fetchResources :: "fetch_outcome \<Rightarrow> app_state \<Rightarrow> app_state" where
  "fetchResources outcome st =
     (case fetchData outcome of
        Inr d \<Rightarrow> st\<lparr>resources := d, filteredResources := d, isLoading := False\<rparr>
      | Inl e \<Rightarrow> st\<lparr>error := Some loadFailedMessage, isLoading := False\<rparr>)"

subsection \<open>The component as a transition system\<close>

text \<open>After the first render both effects run: the filter effect on the initial state,
  and the fetch. When the fetch has settled the component renders again, and the filter
  effect runs again if \<open>resources\<close> was set. An exception in an effect ends the
  component (\<open>Inl\<close>).\<close>

definition mount :: "(jsstring \<Rightarrow> jsstring) \<Rightarrow> fetch_outcome \<Rightarrow> js_error + app_state" where
  "mount lower outcome =
     (case filterEffect lower initialState of
        Inl e \<Rightarrow> Inl e
      | Inr st \<Rightarrow>
          (case fetchData outcome of
             Inr d \<Rightarrow> filterEffect lower (fetchResources outcome st)
           | Inl e \<Rightarrow> Inr (fetchResources outcome st)))"

datatype event = Search jsstring | FilterChange string jsval | Reset | Open obj

text \<open>One user event: the handler, then the filter effect when one of its dependencies
  \<open>[searchTerm, filters, resources]\<close> has changed. Setting the search term to the value
  it has changes nothing; a filter change and a reset store a new \<open>filters\<close> object.\<close>

fun step :: "(jsstring \<Rightarrow> jsstring) \<Rightarrow> event \<Rightarrow> app_state \<Rightarrow> js_error + app_state" where
  "step lower (Search v) st =
     (if v = searchTerm st then Inr st else filterEffect lower (handleSearch v st))"
| "step lower (FilterChange filterType v) st =
     filterEffect lower (handleFilterChange filterType v st)"
| "step lower Reset st = filterEffect lower (resetFilters st)"
| "step lower (Open resource) st = Inr (openResource resource st)"

fun run ::
  "(jsstring \<Rightarrow> jsstring) \<Rightarrow> event list \<Rightarrow> app_state \<Rightarrow> js_error + app_state" where
  "run lower [] st = Inr st"
| "run lower (e # es) st =
     (case step lower e st of Inl x \<Rightarrow> Inl x | Inr st' \<Rightarrow> run lower es st')"

definition session ::
  "(jsstring \<Rightarrow> jsstring) \<Rightarrow> fetch_outcome \<Rightarrow> event list \<Rightarrow> js_error + app_state" where
  "session lower outcome es =
     (case mount lower outcome of Inl x \<Rightarrow> Inl x | Inr st \<Rightarrow> run lower es st)"

subsection \<open>The viewer (lines 72-110)\<close>

record iframe =
  src :: jsval
  width :: string
  height :: string
  title :: jsval
  frameBorder :: "string option"
  allow :: "string option"
  allowFullScreen :: bool

datatype content = NoContent | Iframe iframe | Paragraph string

definition embedFull :: "obj \<Rightarrow> content" where
  "embedFull r =
     Iframe \<lparr> src = getProp r ''url'', width = ''100%'', height = ''500px'',
              title = getProp r ''title'', frameBorder = None, allow = None,
              allowFullScreen = False \<rparr>"

definition embedVideo :: "obj \<Rightarrow> content" where
  "embedVideo r =
     Iframe \<lparr> src = getProp r ''url'', width = ''560'', height = ''315'',
              title = getProp r ''title'', frameBorder = Some ''0'',
              allow = Some ''accelerometer; autoplay; clipboard-write; encrypted-media; gyroscope; picture-in-picture'',
              allowFullScreen = True \<rparr>"

definition renderResourceContent :: "app_state \<Rightarrow> content" where
  "renderResourceContent st =
     (case selectedResource st of
        None \<Rightarrow> NoContent
      | Some r \<Rightarrow>
          (let t = getProp r ''type'' in
           if t = JStr (js ''book'') \<or> t = JStr (js ''article'') then embedFull r
           else if t = JStr (js ''video'') then embedVideo r
           else if t = JStr (js ''activity'') then embedFull r
           else Paragraph ''Unable to display this resource type.''))"

subsection \<open>The filter values and the render function (lines 112-195)\<close>

text \<open>\<open>[...new Set(xs)]\<close>: the values of \<open>xs\<close> without repetition, each at the
  place of its first occurrence.\<close>

definition set_add :: "'a list \<Rightarrow> 'a \<Rightarrow> 'a list" where
  "set_add acc v = (if v \<in> set acc then acc else acc @ [v])"

definition new_Set :: "'a list \<Rightarrow> 'a list" where
  "new_Set xs = foldl set_add [] xs"

definition getUniqueValues :: "app_state \<Rightarrow> string \<Rightarrow> jsval list" where
  "getUniqueValues st key = new_Set (map (\<lambda>item. getProp item key) (resources st))"

definition filterLabels :: obj where
  "filterLabels =
     [(''topic'', JStr (js ''Topic'')), (''type'', JStr (js ''Type'')),
      (''conference'', JStr (js ''Conferences''))]"

text \<open>What React puts into the page for a child \<open>{v}\<close>: nothing for
  \<open>undefined\<close>, \<open>null\<close> and the booleans, the string itself, and a number as the
  runtime prints it. A literal text between the tags is a \<open>TextNode\<close> of its own.\<close>

datatype node = TextNode jsstring | NumberNode int

fun child :: "jsval \<Rightarrow> node list" where
  "child (JStr s) = [TextNode s]"
| "child (JNum i) = [NumberNode i]"
| "child v = []"

record dropdown =
  buttonText :: "node list"
  allItemText :: "node list"
  itemValues :: "jsval list"

definition renderDropdown :: "app_state \<Rightarrow> string \<Rightarrow> dropdown" where
  "renderDropdown st filterType =
     \<lparr> buttonText =
         child (if truthy (getProp (filters st) filterType)
                then getProp (filters st) filterType
                else getProp filterLabels filterType),
       allItemText =
         TextNode (js ''All '') # child (getProp filterLabels filterType) @ [TextNode (js ''s'')],
       itemValues = getUniqueValues st filterType \<rparr>"

record card =
  cardKey :: jsval
  cardTitle :: "node list"
  cardDescription :: "node list"
  cardType :: "node list"
  cardConference :: "node list"

definition renderCard :: "obj \<Rightarrow> card" where
  "renderCard resource =
     \<lparr> cardKey = getProp resource ''id'',
       cardTitle = child (getProp resource ''title''),
       cardDescription = child (getProp resource ''topic''),
       cardType = TextNode (js ''Type: '') # child (getProp resource ''type''),
       cardConference = TextNode (js ''Conference: '') # child (getProp resource ''conference'') \<rparr>"

record main_view =
  searchValue :: jsstring
  dropdowns :: "dropdown list"
  cards :: "card list"

datatype view = LoadingView string | ErrorView string | MainView main_view

definition renderMain :: "app_state \<Rightarrow> main_view" where
  "renderMain st =
     \<lparr> searchValue = searchTerm st,
       dropdowns = map (renderDropdown st) [''topic'', ''type'', ''conference''],
       cards = map renderCard (filteredResources st) \<rparr>"

text \<open>\<open>if (error)\<close> tests the message for truthiness: an empty message would not
  count as an error.\<close>

definition render :: "app_state \<Rightarrow> view" where
  "render st =
     (if isLoading st then LoadingView ''Loading resources...''
      else (case error st of
              None \<Rightarrow> MainView (renderMain st)
            | Some msg \<Rightarrow> if msg \<noteq> [] then ErrorView msg else MainView (renderMain st)))"

section \<open>The specification's notions\<close>

text \<open>What the specification means by a title that contains the search term without
  regard to case, and by a resource that matches the selections; written from the
  specification's words, to be compared with the code above. Two strings are compared
  without regard to case by comparing what \<open>toLowerCase\<close> makes of them: the lowered
  search term lies somewhere in the lowered title.\<close>

definition contains_ignoring_case ::
  "(jsstring \<Rightarrow> jsstring) \<Rightarrow> jsstring \<Rightarrow> jsstring \<Rightarrow> bool" where
  "contains_ignoring_case lower t s =
     (\<exists>pre post. toLowerCase lower t = pre @ toLowerCase lower s @ post)"

definition titleContains :: "(jsstring \<Rightarrow> jsstring) \<Rightarrow> obj \<Rightarrow> jsstring \<Rightarrow> bool" where
  "titleContains lower r s =
     (\<exists>t. getProp r ''title'' = JStr t \<and> contains_ignoring_case lower t s)"

definition dimensions :: "string list" where
  "dimensions = [''topic'', ''type'', ''conference'']"


text \<open>The same condition with "truthy" for "not \<open>null\<close>".\<close>

definition passes_truthy ::
  "(jsstring \<Rightarrow> jsstring) \<Rightarrow> jsstring \<Rightarrow> obj \<Rightarrow> obj \<Rightarrow> bool" where
  "passes_truthy lower s fs r =
     (titleContains lower r s \<and>
      (\<forall>k \<in> set dimensions. truthy (getProp fs k) \<longrightarrow> getProp r k = getProp fs k))"

text \<open>A resource as the data model has it: the title is a string.\<close>

definition hasTitle :: "obj \<Rightarrow> bool" where
  "hasTitle r = (case getProp r ''title'' of JStr t \<Rightarrow> True | _ \<Rightarrow> False)"

text \<open>A record without topic, type and conference.\<close>

definition openDimensions :: "obj \<Rightarrow> bool" where
  "openDimensions r \<longleftrightarrow> (\<forall>k \<in> set dimensions. getProp r k = JUndefined)"

text \<open>The state after a failed load: the error message is set, loading is over, and
  nothing has been stored.\<close>

definition failed :: "app_state \<Rightarrow> bool" where
  "failed st \<longleftrightarrow>
     error st = Some loadFailedMessage \<and> \<not> isLoading st \<and> resources st = []
     \<and> filteredResources st = []"

section \<open>Example data\<close>

text \<open>A lowering function for the examples: it maps the code units of \<open>A\<close> to
  \<open>Z\<close> to those of \<open>a\<close> to \<open>z\<close>, which is what \<open>toLowerCase\<close> does on
  strings of ASCII characters, as all strings of the examples are.\<close>

definition asciiLower :: "jsstring \<Rightarrow> jsstring" where
  "asciiLower s = map (\<lambda>u. if 65 \<le> u \<and> u \<le> 90 then u + 32 else u) s"

text \<open>The two resources of the specification's example.\<close>

definition ex_graphs :: obj where
  "ex_graphs =
     [(''id'', JNum 1), (''title'', JStr (js ''Intro to Graphs'')), (''topic'', JStr (js ''CS'')),
      (''type'', JStr (js ''book'')), (''conference'', JStr (js ''X''))]"

definition ex_ml :: obj where
  "ex_ml =
     [(''id'', JNum 2), (''title'', JStr (js ''Advanced ML'')), (''topic'', JStr (js ''AI'')),
      (''type'', JStr (js ''video'')), (''conference'', JStr (js ''Y''))]"

text \<open>Malformed records: one without a title, one with nothing but id and title, one
  whose topic is the empty string.\<close>

definition ex_untitled :: obj where
  "ex_untitled = [(''id'', JNum 3), (''topic'', JStr (js ''AI''))]"

definition ex_bare :: obj where
  "ex_bare = [(''id'', JNum 4), (''title'', JStr (js ''Notes''))]"

definition ex_blankTopic :: obj where
  "ex_blankTopic = [(''id'', JNum 5), (''title'', JStr (js ''Misc'')), (''topic'', JStr [])]"

text \<open>Selections: the empty string as topic, and the topic \<open>AI\<close>.\<close>

definition ex_emptyTopic :: obj where
  "ex_emptyTopic = [(''topic'', JStr []), (''type'', JNull), (''conference'', JNull)]"

definition ex_topicAI :: obj where
  "ex_topicAI = [(''topic'', JStr (js ''AI'')), (''type'', JNull), (''conference'', JNull)]"

text \<open>Three answers of the server.\<close>

definition ex_ok :: fetch_outcome where
  "ex_ok = Responded \<lparr> status = 200, json = Some [ex_graphs, ex_ml] \<rparr>"


definition ex_500 :: fetch_outcome where
  "ex_500 = Responded \<lparr> status = 500, json = None \<rparr>"

text \<open>The state after loading the two resources, typing \<open>a\<close> and choosing the topic
  \<open>AI\<close>; and the same state with a resource open in the viewer.\<close>

definition ex_loaded :: app_state where
  "ex_loaded =
     \<lparr> resources = [ex_graphs, ex_ml], filteredResources = [ex_ml], searchTerm = js ''a'',
       filters = ex_topicAI, isLoading = False, error = None, selectedResource = None \<rparr>"

definition ex_viewing :: "obj \<Rightarrow> app_state" where
  "ex_viewing r = ex_loaded\<lparr>selectedResource := Some r\<rparr>"



section \<open>Strings: \<open>includes\<close> and \<open>toLowerCase\<close>\<close>

lemma startsWith_iff: "startsWith t s \<longleftrightarrow> (\<exists>post. t = s @ post)"
  by (induction t s rule: startsWith.induct) auto

lemma includes_js_iff: "includes_js t s \<longleftrightarrow> (\<exists>pre post. t = pre @ s @ post)"
proof (induction t)
  case Nil
  then show ?case by auto
next
  case (Cons d t)
  show ?case
  proof
    assume "includes_js (d # t) s"
    then consider "startsWith (d # t) s" | "includes_js t s" by auto
    then show "\<exists>pre post. d # t = pre @ s @ post"
    proof cases
      case 1
      then obtain post where "d # t = s @ post" by (auto simp: startsWith_iff)
      then have "d # t = [] @ s @ post" by simp
      then show ?thesis by blast
    next
      case 2
      then obtain pre post where "t = pre @ s @ post" using Cons.IH by blast
      then have "d # t = (d # pre) @ s @ post" by simp
      then show ?thesis by blast
    qed
  next
    assume "\<exists>pre post. d # t = pre @ s @ post"
    then obtain pre post where e: "d # t = pre @ s @ post" by blast
    show "includes_js (d # t) s"
    proof (cases pre)
      case Nil
      with e have "startsWith (d # t) s" by (auto simp: startsWith_iff)
      then show ?thesis by simp
    next
      case (Cons a pre')
      with e have "t = pre' @ s @ post" by simp
      then have "includes_js t s" using Cons.IH by blast
      then show ?thesis by simp
    qed
  qed
qed

lemma includes_lower_iff:
  "includes_js (toLowerCase lower t) (toLowerCase lower s) \<longleftrightarrow> contains_ignoring_case lower t s"
  by (simp add: includes_js_iff contains_ignoring_case_def)

lemma contains_empty: "contains_ignoring_case lower t []"
proof -
  have "toLowerCase lower t = [] @ toLowerCase lower [] @ toLowerCase lower t"
    by (simp add: toLowerCase_def)
  then show ?thesis
    unfolding contains_ignoring_case_def by blast
qed

lemma hasTitle_iff: "hasTitle r \<longleftrightarrow> (\<exists>t. getProp r ''title'' = JStr t)"
  by (simp add: hasTitle_def split: jsval.splits)

lemma resourcePasses_titled:
  assumes "hasTitle r"
  shows "resourcePasses lower s fs r = Inr (passes_truthy lower s fs r)"
proof -
  from assms obtain t where t: "getProp r ''title'' = JStr t"
    by (auto simp: hasTitle_iff)
  have "titleContains lower r s \<longleftrightarrow> includes_js (toLowerCase lower t) (toLowerCase lower s)"
    by (simp add: titleContains_def t includes_lower_iff)
  then show ?thesis
    by (auto simp: resourcePasses_def t passes_truthy_def dimensions_def dimensionPasses_def)
qed

lemma resourcePasses_untitled:
  assumes "\<not> hasTitle r"
  shows "resourcePasses lower s fs r = Inl TypeError"
  using assms by (cases "getProp r ''title''") (simp_all add: resourcePasses_def hasTitle_def)

section \<open>The filter engine\<close>

lemma filter_js_total:
  assumes "\<forall>x \<in> set xs. p x = Inr (q x)"
  shows "filter_js p xs = Inr (filter q xs)"
  using assms by (induction xs) simp_all

lemma filter_js_throws:
  assumes "\<exists>x \<in> set xs. p x = Inl e" and "\<forall>x \<in> set xs. \<forall>e'. p x = Inl e' \<longrightarrow> e' = e"
  shows "filter_js p xs = Inl e"
  using assms
proof (induction xs)
  case Nil
  then show ?case by simp
next
  case (Cons x xs)
  show ?case
  proof (cases "p x")
    case (Inl e')
    with Cons.prems(2) have "e' = e" by simp
    with Inl show ?thesis by simp
  next
    case (Inr b)
    with Cons.prems have "\<exists>x \<in> set xs. p x = Inl e" by auto
    moreover from Cons.prems have "\<forall>x \<in> set xs. \<forall>e'. p x = Inl e' \<longrightarrow> e' = e" by simp
    ultimately have "filter_js p xs = Inl e" by (rule Cons.IH)
    with Inr show ?thesis by simp
  qed
qed

lemma filter_js_Inr_all:
  "filter_js p xs = Inr ys \<Longrightarrow> \<forall>x \<in> set xs. \<exists>b. p x = Inr b"
  by (induction xs arbitrary: ys) (auto split: sum.splits)

lemma filterResources_Inr_titled:
  assumes "filterResources lower rs s fs = Inr ys"
  shows "\<forall>r \<in> set rs. hasTitle r"
proof
  fix r assume "r \<in> set rs"
  with assms obtain b where "resourcePasses lower s fs r = Inr b"
    unfolding filterResources_def using filter_js_Inr_all by blast
  then show "hasTitle r"
    using resourcePasses_untitled [of r lower s fs] by auto
qed

lemma filterResources_titled:
  assumes "\<forall>r \<in> set rs. hasTitle r"
  shows "filterResources lower rs s fs = Inr (filter (passes_truthy lower s fs) rs)"
  unfolding filterResources_def
  by (rule filter_js_total) (simp add: assms resourcePasses_titled)

lemma filterResources_untitled:
  assumes "\<not> (\<forall>r \<in> set rs. hasTitle r)"
  shows "filterResources lower rs s fs = Inl TypeError"
  unfolding filterResources_def
proof (rule filter_js_throws)
  from assms show "\<exists>x \<in> set rs. resourcePasses lower s fs x = Inl TypeError"
    using resourcePasses_untitled by blast
  show "\<forall>x \<in> set rs. \<forall>e'. resourcePasses lower s fs x = Inl e' \<longrightarrow> e' = TypeError"
    using resourcePasses_untitled resourcePasses_titled by (metis Inl_Inr_False sum.inject(1))
qed

lemma passes_truthy_reset:
  assumes "hasTitle r"
  shows "passes_truthy lower [] noFilters r"
  using assms
  by (auto simp: passes_truthy_def hasTitle_iff titleContains_def contains_empty
      dimensions_def noFilters_def getProp_def)

lemma filterEffect_frame:
  assumes "filterEffect lower st = Inr st'"
  shows "st' = st\<lparr>filteredResources := filteredResources st'\<rparr>"
  using assms by (auto simp: filterEffect_def split: sum.splits)

lemma filterEffect_resources:
  "filterEffect lower st = Inr st' \<Longrightarrow> resources st' = resources st"
  by (auto simp: filterEffect_def split: sum.splits)

lemma step_resources: "step lower e st = Inr st' \<Longrightarrow> resources st' = resources st"
  by (cases e)
     (auto simp: handleSearch_def handleFilterChange_def resetFilters_def openResource_def
           dest!: filterEffect_resources split: if_splits)

lemma run_resources: "run lower es st = Inr st' \<Longrightarrow> resources st' = resources st"
proof (induction es arbitrary: st)
  case Nil
  then show ?case by simp
next
  case (Cons e es)
  then obtain st1 where "step lower e st = Inr st1" and "run lower es st1 = Inr st'"
    by (auto split: sum.splits)
  then show ?case using Cons.IH step_resources by metis
qed

lemma filterEffect_initial:
  "filterEffect lower initialState = Inr initialState"
  by (simp add: filterEffect_def filterResources_def initialState_def)

lemma mount_titled:
  assumes "mount lower outcome = Inr st"
  shows "\<forall>r \<in> set (resources st). hasTitle r"
proof (cases "fetchData outcome")
  case (Inl e)
  with assms have "st = fetchResources outcome initialState"
    by (simp add: mount_def filterEffect_initial)
  with Inl have "resources st = []"
    by (simp add: fetchResources_def initialState_def)
  then show ?thesis by simp
next
  case (Inr d)
  with assms have "filterEffect lower (fetchResources outcome initialState) = Inr st"
    by (simp add: mount_def filterEffect_initial)
  then obtain ys where "filterResources lower (resources st) (searchTerm st) (filters st) = Inr ys"
    by (auto simp: filterEffect_def split: sum.splits)
  then show ?thesis by (rule filterResources_Inr_titled)
qed

lemma session_titled:
  assumes "session lower outcome es = Inr st"
  shows "\<forall>r \<in> set (resources st). hasTitle r"
proof -
  from assms obtain st0 where "mount lower outcome = Inr st0" and "run lower es st0 = Inr st"
    by (auto simp: session_def split: sum.splits)
  then show ?thesis using mount_titled run_resources by metis
qed

lemma filterResources_cases:
  "filterResources lower rs s fs =
     (if \<forall>r \<in> set rs. hasTitle r then Inr (filter (passes_truthy lower s fs) rs) else Inl TypeError)"
  by (simp add: filterResources_titled filterResources_untitled)

lemma getProp_update:
  "getProp (AList.update k v ob) k' = (if k' = k then v else getProp ob k')"
  by (simp add: getProp_def update_conv')

lemma dimensionPasses_falsy:
  assumes "\<not> truthy (getProp fs k)"
  shows "dimensionPasses (AList.update k JNull fs) r k' = dimensionPasses fs r k'"
  using assms by (simp add: dimensionPasses_def getProp_update)

section \<open>The filter values\<close>

lemma set_foldl_set_add: "set (foldl set_add acc xs) = set acc \<union> set xs"
  by (induction xs arbitrary: acc) (auto simp: set_add_def)

lemma distinct_foldl_set_add: "distinct acc \<Longrightarrow> distinct (foldl set_add acc xs)"
  by (induction xs arbitrary: acc) (auto simp: set_add_def)

lemma set_new_Set: "set (new_Set xs) = set xs"
  by (simp add: new_Set_def set_foldl_set_add)

lemma distinct_new_Set: "distinct (new_Set xs)"
  by (simp add: new_Set_def distinct_foldl_set_add)

lemma getUniqueValues_resources:
  "resources st' = resources st \<Longrightarrow> getUniqueValues st' k = getUniqueValues st k"
  by (simp add: getUniqueValues_def)

section \<open>The loader\<close>

lemma filterEffect_empty:
  "resources st = [] \<Longrightarrow> filterEffect lower st = Inr (st\<lparr>filteredResources := []\<rparr>)"
  by (simp add: filterEffect_def filterResources_def)

lemma failed_step: "failed st \<Longrightarrow> \<exists>st'. step lower e st = Inr st' \<and> failed st'"
  by (cases e)
     (auto simp: failed_def filterEffect_empty handleSearch_def handleFilterChange_def
        resetFilters_def openResource_def)

lemma failed_run: "failed st \<Longrightarrow> \<exists>st'. run lower es st = Inr st' \<and> failed st'"
proof (induction es arbitrary: st)
  case Nil
  then show ?case by simp
next
  case (Cons e es)
  then obtain st1 where s: "step lower e st = Inr st1" and "failed st1"
    using failed_step by blast
  then obtain st' where "run lower es st1 = Inr st'" and "failed st'"
    using Cons.IH by blast
  with s show ?case by simp
qed

lemma failed_render: "failed st \<Longrightarrow> render st = ErrorView loadFailedMessage"
  by (simp add: failed_def render_def loadFailedMessage_def)

lemma mount_failure:
  assumes "fetchData outcome = Inl e"
  shows "\<exists>st. mount lower outcome = Inr st \<and> failed st"
proof -
  from assms have "mount lower outcome = Inr (fetchResources outcome initialState)"
    by (simp add: mount_def filterEffect_initial)
  moreover from assms have "failed (fetchResources outcome initialState)"
    by (simp add: fetchResources_def failed_def initialState_def)
  ultimately show ?thesis by blast
qed

lemma fetchData_failure:
  assumes "outcome = Rejected \<or> (\<exists>r. outcome = Responded r \<and> \<not> response_ok r)"
  shows "\<exists>e. fetchData outcome = Inl e"
  using assms by (auto simp: fetchData_def)

section \<open>The claims\<close>




text \<open>
  Claim C2. For every key, \<open>getUniqueValues\<close> lists the distinct values of that
  attribute over the whole collection \<open>resources\<close>, and these are the values the three
  dropdowns offer. The list stays the same under every value of the search term, of the
  selections and of the filtered view, and through every sequence of user events.
\<close>

theorem filter_values_from_full_collection:
  "set (getUniqueValues st k) = (\<lambda>item. getProp item k) ` set (resources st)
   \<and> distinct (getUniqueValues st k)
   \<and> map itemValues (dropdowns (renderMain st)) = map (getUniqueValues st) dimensions
   \<and> getUniqueValues (st\<lparr>searchTerm := s, filters := fs, filteredResources := fr\<rparr>) k
       = getUniqueValues st k
   \<and> (run lower es st = Inr st' \<longrightarrow> getUniqueValues st' k = getUniqueValues st k)"
proof (intro conjI impI)
  show "set (getUniqueValues st k) = (\<lambda>item. getProp item k) ` set (resources st)"
    by (simp add: getUniqueValues_def set_new_Set)
  show "distinct (getUniqueValues st k)"
    by (simp add: getUniqueValues_def distinct_new_Set)
  show "map itemValues (dropdowns (renderMain st)) = map (getUniqueValues st) dimensions"
    by (simp add: renderMain_def renderDropdown_def dimensions_def)
  show "getUniqueValues (st\<lparr>searchTerm := s, filters := fs, filteredResources := fr\<rparr>) k
       = getUniqueValues st k"
    by (simp add: getUniqueValues_def)
  assume "run lower es st = Inr st'"
  then have "resources st' = resources st" by (rule run_resources)
  then show "getUniqueValues st' k = getUniqueValues st k"
    by (rule getUniqueValues_resources)
qed

theorem filter_values_from_full_collection_witness:
  "run asciiLower [Search (js ''a''), FilterChange ''topic'' (JStr (js ''AI''))]
     (ex_loaded\<lparr>searchTerm := [], filters := noFilters,
                filteredResources := [ex_graphs, ex_ml]\<rparr>) = Inr ex_loaded
   \<and> filteredResources ex_loaded = [ex_ml]
   \<and> getUniqueValues ex_loaded ''topic'' = [JStr (js ''CS''), JStr (js ''AI'')]
   \<and> getUniqueValues (ex_loaded\<lparr>searchTerm := [], filters := noFilters,
                filteredResources := [ex_graphs, ex_ml]\<rparr>) ''topic'' = [JStr (js ''CS''), JStr (js ''AI'')]"
proof -
  have r: "run asciiLower [Search (js ''a''), FilterChange ''topic'' (JStr (js ''AI''))]
     (ex_loaded\<lparr>searchTerm := [], filters := noFilters,
                filteredResources := [ex_graphs, ex_ml]\<rparr>) = Inr ex_loaded"
    by code_simp
  have f: "filteredResources ex_loaded = [ex_ml]"
    by code_simp
  have u: "getUniqueValues (ex_loaded\<lparr>searchTerm := [], filters := noFilters,
                filteredResources := [ex_graphs, ex_ml]\<rparr>) ''topic'' = [JStr (js ''CS''), JStr (js ''AI'')]"
    by code_simp
  from filter_values_from_full_collection
         [of "ex_loaded\<lparr>searchTerm := [], filters := noFilters,
                filteredResources := [ex_graphs, ex_ml]\<rparr>" "''topic''" _ _ _ asciiLower
             "[Search (js ''a''), FilterChange ''topic'' (JStr (js ''AI''))]" ex_loaded] r
  have "getUniqueValues ex_loaded ''topic''
        = getUniqueValues (ex_loaded\<lparr>searchTerm := [], filters := noFilters,
                filteredResources := [ex_graphs, ex_ml]\<rparr>) ''topic''"
    by blast
  with r f u show ?thesis by simp
qed

text \<open>
  Claim C3. When the fetch is rejected or answers with a status outside 200-299, the
  component ends up with the error message set (and not empty), loading over, and both
  the collection and the filtered view empty; what it renders is the error display.
  No user event changes any of this, so nothing is loaded later.
\<close>

theorem load_failure_error_state:
  assumes "outcome = Rejected \<or> (\<exists>r. outcome = Responded r \<and> \<not> response_ok r)"
  shows "\<exists>st. session lower outcome es = Inr st
           \<and> error st = Some loadFailedMessage \<and> loadFailedMessage \<noteq> []
           \<and> \<not> isLoading st
           \<and> resources st = [] \<and> filteredResources st = []
           \<and> render st = ErrorView loadFailedMessage"
proof -
  from assms obtain e where "fetchData outcome = Inl e"
    using fetchData_failure by blast
  then obtain st0 where m: "mount lower outcome = Inr st0" and "failed st0"
    using mount_failure by blast
  then obtain st where r: "run lower es st0 = Inr st" and f: "failed st"
    using failed_run by blast
  from m r have "session lower outcome es = Inr st"
    by (simp add: session_def)
  moreover have "loadFailedMessage \<noteq> []"
    by (simp add: loadFailedMessage_def)
  ultimately show ?thesis
    using f failed_render [OF f] by (auto simp: failed_def)
qed

theorem load_failure_error_state_witness:
  "(ex_500 = Rejected \<or> (\<exists>r. ex_500 = Responded r \<and> \<not> response_ok r))
   \<and> session asciiLower ex_500 [Reset, Search (js ''a'')] =
       Inr (initialState\<lparr>searchTerm := js ''a'', error := Some loadFailedMessage, isLoading := False\<rparr>)
   \<and> render (initialState\<lparr>searchTerm := js ''a'', error := Some loadFailedMessage, isLoading := False\<rparr>)
       = ErrorView loadFailedMessage"
proof -
  have h: "ex_500 = Rejected \<or> (\<exists>r. ex_500 = Responded r \<and> \<not> response_ok r)"
    by (simp add: ex_500_def response_ok_def)
  have s: "session asciiLower ex_500 [Reset, Search (js ''a'')] =
       Inr (initialState\<lparr>searchTerm := js ''a'', error := Some loadFailedMessage, isLoading := False\<rparr>)"
    by code_simp
  from load_failure_error_state [OF h, of asciiLower "[Reset, Search (js ''a'')]"]
  obtain st where "session asciiLower ex_500 [Reset, Search (js ''a'')] = Inr st"
    and "render st = ErrorView loadFailedMessage"
    by blast
  with s have "render (initialState\<lparr>searchTerm := js ''a'', error := Some loadFailedMessage, isLoading := False\<rparr>)
       = ErrorView loadFailedMessage"
    by simp
  with h s show ?thesis by blast
qed

text \<open>
  Claim C4. In every state that a session reaches, whatever the search term and the
  selections are, \<open>resetFilters\<close> sets the three selections to \<open>null\<close> and the
  search term to the empty string in one update, and the filter run that follows makes
  the filtered view the whole collection.
\<close>

theorem reset_restores_full_collection:
  assumes "session lower outcome es = Inr st"
  shows "resetFilters st = st\<lparr>filters := noFilters, searchTerm := []\<rparr>
         \<and> (\<forall>k \<in> set dimensions. getProp noFilters k = JNull)
         \<and> step lower Reset st =
             Inr (st\<lparr>filters := noFilters, searchTerm := [],
                     filteredResources := resources st\<rparr>)"
proof (intro conjI)
  show "resetFilters st = st\<lparr>filters := noFilters, searchTerm := []\<rparr>"
    by (simp add: resetFilters_def)
  show "\<forall>k \<in> set dimensions. getProp noFilters k = JNull"
    by (simp add: dimensions_def noFilters_def getProp_def)
  have "\<forall>r \<in> set (resources st). hasTitle r"
    using assms by (rule session_titled)
  then have "filterResources lower (resources st) [] noFilters = Inr (resources st)"
    by (simp add: filterResources_titled passes_truthy_reset)
  then show "step lower Reset st =
      Inr (st\<lparr>filters := noFilters, searchTerm := [], filteredResources := resources st\<rparr>)"
    by (simp add: filterEffect_def resetFilters_def)
qed

theorem reset_restores_full_collection_witness:
  "session asciiLower ex_ok [Search (js ''a''), FilterChange ''topic'' (JStr (js ''AI''))] = Inr ex_loaded
   \<and> filteredResources ex_loaded = [ex_ml]
   \<and> step asciiLower Reset ex_loaded =
       Inr (ex_loaded\<lparr>filters := noFilters, searchTerm := [],
                      filteredResources := [ex_graphs, ex_ml]\<rparr>)"
proof -
  have h: "session asciiLower ex_ok [Search (js ''a''), FilterChange ''topic'' (JStr (js ''AI''))] = Inr ex_loaded"
    by code_simp
  have f: "filteredResources ex_loaded = [ex_ml]"
    by code_simp
  have r: "resources ex_loaded = [ex_graphs, ex_ml]"
    by code_simp
  from reset_restores_full_collection [OF h]
  have "step asciiLower Reset ex_loaded =
       Inr (ex_loaded\<lparr>filters := noFilters, searchTerm := [],
                      filteredResources := resources ex_loaded\<rparr>)"
    by blast
  then have "step asciiLower Reset ex_loaded =
       Inr (ex_loaded\<lparr>filters := noFilters, searchTerm := [],
                      filteredResources := [ex_graphs, ex_ml]\<rparr>)"
    by (simp only: r)
  with h f show ?thesis by blast
qed

text \<open>
  Claim C5. The selection is one optional resource. Opening \<open>a\<close> and then \<open>b\<close>
  changes nothing but the selection, which is then \<open>b\<close> alone; at no time does it hold
  more than one resource.
\<close>

theorem single_selection:
  "run lower [Open a, Open b] st = Inr (st\<lparr>selectedResource := Some b\<rparr>)
   \<and> selectedResource (openResource b (openResource a st)) = Some b
   \<and> set_option (selectedResource (openResource b (openResource a st))) = {b}
   \<and> card (set_option (selectedResource st)) \<le> 1"
  by (cases "selectedResource st") (simp_all add: openResource_def)

theorem single_selection_witness:
  "run asciiLower [Open ex_graphs, Open ex_ml] ex_loaded = Inr (ex_viewing ex_ml)
   \<and> set_option (selectedResource (openResource ex_ml (openResource ex_graphs ex_loaded)))
       = {ex_ml}"
  unfolding ex_viewing_def
  using single_selection [of asciiLower ex_graphs ex_ml ex_loaded] by blast

text \<open>
  Claim C6. For a selected resource the viewer decides by the \<open>type\<close> attribute: for
  \<open>book\<close>, \<open>article\<close> and \<open>activity\<close> an iframe of width 100% and height 500px
  without media permissions, for \<open>video\<close> an iframe of 560 by 315 with the media
  permissions and full screen allowed, and for every other value the paragraph that says
  the type cannot be displayed.
\<close>

theorem viewer_dispatch:
  assumes "selectedResource st = Some r"
  shows "(getProp r ''type'' \<in> {JStr (js ''book''), JStr (js ''article''), JStr (js ''activity'')} \<longrightarrow>
            (\<exists>fr. renderResourceContent st = Iframe fr \<and> src fr = getProp r ''url''
                  \<and> width fr = ''100%'' \<and> height fr = ''500px''
                  \<and> allow fr = None \<and> \<not> allowFullScreen fr))
       \<and> (getProp r ''type'' = JStr (js ''video'') \<longrightarrow>
            (\<exists>fr. renderResourceContent st = Iframe fr \<and> src fr = getProp r ''url''
                  \<and> width fr = ''560'' \<and> height fr = ''315''
                  \<and> allow fr = Some ''accelerometer; autoplay; clipboard-write; encrypted-media; gyroscope; picture-in-picture''
                  \<and> allowFullScreen fr))
       \<and> (getProp r ''type'' \<notin> {JStr (js ''book''), JStr (js ''article''), JStr (js ''activity''), JStr (js ''video'')} \<longrightarrow>
            renderResourceContent st = Paragraph ''Unable to display this resource type.'')"
  using assms
  by (auto simp: renderResourceContent_def embedFull_def embedVideo_def Let_def js_def)

theorem viewer_dispatch_witness:
  "renderResourceContent (ex_viewing ex_graphs) = embedFull ex_graphs
   \<and> renderResourceContent (ex_viewing ex_ml) = embedVideo ex_ml
   \<and> renderResourceContent (ex_viewing ex_untitled)
       = Paragraph ''Unable to display this resource type.''"
proof -
  have s: "selectedResource (ex_viewing r) = Some r" for r
    by (simp add: ex_viewing_def)
  have t1: "getProp ex_graphs ''type'' \<in> {JStr (js ''book''), JStr (js ''article''), JStr (js ''activity'')}"
    by code_simp
  have t2: "getProp ex_ml ''type'' = JStr (js ''video'')"
    by code_simp
  have t3: "getProp ex_untitled ''type''
              \<notin> {JStr (js ''book''), JStr (js ''article''), JStr (js ''activity''), JStr (js ''video'')}"
    by code_simp
  from viewer_dispatch [OF s, of ex_graphs] t1
  obtain fr where "renderResourceContent (ex_viewing ex_graphs) = Iframe fr"
    and "width fr = ''100%''" and "height fr = ''500px''"
    by blast
  moreover have "renderResourceContent (ex_viewing ex_graphs) = embedFull ex_graphs"
    by code_simp
  moreover from viewer_dispatch [OF s, of ex_ml] t2
  obtain fv where "renderResourceContent (ex_viewing ex_ml) = Iframe fv"
    and "width fv = ''560''" and "allowFullScreen fv"
    by blast
  moreover have "renderResourceContent (ex_viewing ex_ml) = embedVideo ex_ml"
    by code_simp
  moreover from viewer_dispatch [OF s, of ex_untitled] t3
  have "renderResourceContent (ex_viewing ex_untitled)
       = Paragraph ''Unable to display this resource type.''"
    by blast
  ultimately show ?thesis by blast
qed

text \<open>
  Claim C7, as the code has it. Records are not validated. The filter engine completes
  exactly when the title of every resource is a string, whatever else is missing, and
  throws a \<open>TypeError\<close> otherwise; a record without topic, type and conference is
  shown with empty text in those places.
\<close>

theorem malformed_records_not_validated:
  "((\<exists>ys. filterResources lower rs s fs = Inr ys) \<longleftrightarrow> (\<forall>r \<in> set rs. hasTitle r))
   \<and> (\<not> (\<forall>r \<in> set rs. hasTitle r) \<longrightarrow> filterResources lower rs s fs = Inl TypeError)
   \<and> (openDimensions r \<longrightarrow>
        cardDescription (renderCard r) = []
        \<and> cardType (renderCard r) = [TextNode (js ''Type: '')]
        \<and> cardConference (renderCard r) = [TextNode (js ''Conference: '')])"
  by (auto simp: filterResources_cases openDimensions_def dimensions_def renderCard_def)

theorem malformed_records_not_validated_witness:
  "openDimensions ex_bare \<and> hasTitle ex_graphs \<and> hasTitle ex_bare
   \<and> (\<exists>ys. filterResources asciiLower [ex_graphs, ex_bare] (js ''NOTE'') noFilters = Inr ys)
   \<and> cardType (renderCard ex_bare) = [TextNode (js ''Type: '')]
   \<and> \<not> (\<forall>r \<in> set [ex_ml, ex_untitled]. hasTitle r)
   \<and> filterResources asciiLower [ex_ml, ex_untitled] [] noFilters = Inl TypeError"
proof -
  have o: "openDimensions ex_bare"
    by (simp add: openDimensions_def dimensions_def ex_bare_def getProp_def)
  have h: "\<forall>r \<in> set [ex_graphs, ex_bare]. hasTitle r"
    by code_simp
  have n: "\<not> (\<forall>r \<in> set [ex_ml, ex_untitled]. hasTitle r)"
    by code_simp
  from malformed_records_not_validated
         [of asciiLower "[ex_graphs, ex_bare]" "js ''NOTE''" noFilters ex_bare] o h
  have "(\<exists>ys. filterResources asciiLower [ex_graphs, ex_bare] (js ''NOTE'') noFilters = Inr ys)
        \<and> cardType (renderCard ex_bare) = [TextNode (js ''Type: '')]"
    by blast
  moreover from malformed_records_not_validated [of asciiLower "[ex_ml, ex_untitled]" "[]" noFilters] n
  have "filterResources asciiLower [ex_ml, ex_untitled] [] noFilters = Inl TypeError"
    by blast
  ultimately show ?thesis using o h n by simp
qed

text \<open>
  A record without a title does not surface as a rendering anomaly: the filter engine
  throws on it, and a session that loads it ends with that exception.
\<close>

theorem malformed_records_counterexample:
  "getProp ex_untitled ''title'' = JUndefined
   \<and> filterResources asciiLower [ex_ml, ex_untitled] [] noFilters = Inl TypeError
   \<and> session asciiLower (Responded \<lparr> status = 200, json = Some [ex_ml, ex_untitled] \<rparr>) [] = Inl TypeError"
  by code_simp

text \<open>
  Claim C8. The filtered view that a filter run stores depends on the collection, the
  search term and the selections only: two states that agree on these three get the same
  result, whatever else differs. A run changes nothing but the filtered view, which is a
  subsequence of the collection, and running it again changes nothing.
\<close>

theorem filter_engine_pure:
  "(resources st1 = resources st2 \<and> searchTerm st1 = searchTerm st2 \<and> filters st1 = filters st2
      \<longrightarrow> map_sum id filteredResources (filterEffect lower st1)
          = map_sum id filteredResources (filterEffect lower st2))
   \<and> (filterEffect lower st = Inr st' \<longrightarrow>
        st' = st\<lparr>filteredResources := filteredResources st'\<rparr>
        \<and> resources st' = resources st
        \<and> subseq (filteredResources st') (resources st)
        \<and> filterEffect lower st' = Inr st')"
proof (intro conjI impI)
  assume "resources st1 = resources st2 \<and> searchTerm st1 = searchTerm st2 \<and> filters st1 = filters st2"
  then show "map_sum id filteredResources (filterEffect lower st1)
          = map_sum id filteredResources (filterEffect lower st2)"
    by (auto simp: filterEffect_def split: sum.splits)
next
  assume a: "filterEffect lower st = Inr st'"
  then show "st' = st\<lparr>filteredResources := filteredResources st'\<rparr>"
    by (rule filterEffect_frame)
  from a show r: "resources st' = resources st"
    by (rule filterEffect_resources)
  from a obtain ys where ys: "filterResources lower (resources st) (searchTerm st) (filters st) = Inr ys"
    and st': "st' = st\<lparr>filteredResources := ys\<rparr>"
    by (auto simp: filterEffect_def split: sum.splits)
  from ys have "ys = filter (passes_truthy lower (searchTerm st) (filters st)) (resources st)"
    by (simp add: filterResources_cases split: if_splits)
  with st' show "subseq (filteredResources st') (resources st)"
    by simp
  from ys st' show "filterEffect lower st' = Inr st'"
    by (simp add: filterEffect_def)
qed

theorem filter_engine_pure_witness:
  "filterEffect asciiLower (ex_loaded\<lparr>filteredResources := []\<rparr>) = Inr ex_loaded
   \<and> filterEffect asciiLower ex_loaded = Inr ex_loaded
   \<and> resources ex_loaded = resources (ex_loaded\<lparr>filteredResources := []\<rparr>)
   \<and> subseq (filteredResources ex_loaded) (resources ex_loaded)
   \<and> map_sum id filteredResources (filterEffect asciiLower (ex_viewing ex_ml)) = Inr [ex_ml]"
proof -
  have e: "filterEffect asciiLower (ex_loaded\<lparr>filteredResources := []\<rparr>) = Inr ex_loaded"
    by code_simp
  have a: "resources (ex_viewing ex_ml) = resources ex_loaded
           \<and> searchTerm (ex_viewing ex_ml) = searchTerm ex_loaded
           \<and> filters (ex_viewing ex_ml) = filters ex_loaded"
    by (simp add: ex_viewing_def)
  have f: "filteredResources ex_loaded = [ex_ml]"
    by code_simp
  from filter_engine_pure [of _ _ asciiLower "ex_loaded\<lparr>filteredResources := []\<rparr>" ex_loaded] e
  have 1: "resources ex_loaded = resources (ex_loaded\<lparr>filteredResources := []\<rparr>)
        \<and> subseq (filteredResources ex_loaded) (resources ex_loaded)
        \<and> filterEffect asciiLower ex_loaded = Inr ex_loaded"
    by simp
  from filter_engine_pure [of "ex_viewing ex_ml" ex_loaded asciiLower] a
  have "map_sum id filteredResources (filterEffect asciiLower (ex_viewing ex_ml))
        = map_sum id filteredResources (filterEffect asciiLower ex_loaded)"
    by blast
  with 1 f have "map_sum id filteredResources (filterEffect asciiLower (ex_viewing ex_ml)) = Inr [ex_ml]"
    by simp
  with e 1 show ?thesis by blast
qed

text \<open>
  Claim C9. A selection that is the empty string, which is not \<open>null\<close>, constrains
  nothing: every resource passes that dimension, and the filter engine gives the same
  result as with \<open>null\<close> selected there.
\<close>

theorem empty_string_selection_unconstrained:
  assumes "k \<in> set dimensions" and "getProp fs k = JStr []"
  shows "JStr [] \<noteq> JNull \<and> dimensionPasses fs r k
         \<and> filterResources lower rs s fs = filterResources lower rs s (AList.update k JNull fs)"
proof -
  from assms(2) have f: "\<not> truthy (getProp fs k)" by simp
  then have "resourcePasses lower s (AList.update k JNull fs) = resourcePasses lower s fs"
    by (intro ext) (simp add: resourcePasses_def dimensionPasses_falsy cong: sum.case_cong)
  then have "filterResources lower rs s fs = filterResources lower rs s (AList.update k JNull fs)"
    by (simp add: filterResources_def)
  moreover from f have "dimensionPasses fs r k"
    by (simp add: dimensionPasses_def)
  ultimately show ?thesis by simp
qed

theorem empty_string_selection_unconstrained_witness:
  "''topic'' \<in> set dimensions \<and> getProp ex_emptyTopic ''topic'' = JStr []
   \<and> getProp ex_blankTopic ''topic'' = JStr [] \<and> getProp ex_graphs ''topic'' = JStr (js ''CS'')
   \<and> filterResources asciiLower [ex_graphs, ex_blankTopic] [] ex_emptyTopic
       = Inr [ex_graphs, ex_blankTopic]
   \<and> filterResources asciiLower [ex_graphs, ex_blankTopic] [] noFilters = Inr [ex_graphs, ex_blankTopic]"
proof -
  have k: "''topic'' \<in> set dimensions"
    by (simp add: dimensions_def)
  have e: "getProp ex_emptyTopic ''topic'' = JStr []"
    by code_simp
  have u: "AList.update ''topic'' JNull ex_emptyTopic = noFilters"
    by code_simp
  have n: "filterResources asciiLower [ex_graphs, ex_blankTopic] [] noFilters
             = Inr [ex_graphs, ex_blankTopic]"
    by code_simp
  have g: "getProp ex_blankTopic ''topic'' = JStr [] \<and> getProp ex_graphs ''topic'' = JStr (js ''CS'')"
    by code_simp
  from empty_string_selection_unconstrained [OF k e, of _ asciiLower "[ex_graphs, ex_blankTopic]" "[]"]
  have "filterResources asciiLower [ex_graphs, ex_blankTopic] [] ex_emptyTopic
        = filterResources asciiLower [ex_graphs, ex_blankTopic] [] (AList.update ''topic'' JNull ex_emptyTopic)"
    by blast
  with u n have "filterResources asciiLower [ex_graphs, ex_blankTopic] [] ex_emptyTopic
       = Inr [ex_graphs, ex_blankTopic]"
    by simp
  with k e g n show ?thesis by blast
qed

text \<open>
  Claim C10. \<open>handleFilterChange\<close> stores the value under the named dimension and
  leaves every other selection, the search term and the rest of the state as they were;
  the same holds for the selections and the search term after the filter run that
  follows.
\<close>

theorem filter_change_frame:
  "getProp (filters (handleFilterChange ft v st)) ft = v
   \<and> (k \<noteq> ft \<longrightarrow> getProp (filters (handleFilterChange ft v st)) k = getProp (filters st) k)
   \<and> handleFilterChange ft v st = st\<lparr>filters := filters (handleFilterChange ft v st)\<rparr>
   \<and> searchTerm (handleFilterChange ft v st) = searchTerm st
   \<and> (step lower (FilterChange ft v) st = Inr st' \<longrightarrow>
        searchTerm st' = searchTerm st \<and> getProp (filters st') ft = v
        \<and> (k \<noteq> ft \<longrightarrow> getProp (filters st') k = getProp (filters st) k))"
proof -
  have "filters st' = filters (handleFilterChange ft v st)
        \<and> searchTerm st' = searchTerm (handleFilterChange ft v st)"
    if "step lower (FilterChange ft v) st = Inr st'"
    using that filterEffect_frame [of lower "handleFilterChange ft v st" st']
    by (metis app_state.select_convs(3,4) app_state.surjective app_state.update_convs(2) step.simps(2))
  then show ?thesis
    by (auto simp: handleFilterChange_def getProp_update simp del: step.simps)
qed

theorem filter_change_frame_witness:
  "step asciiLower (FilterChange ''type'' (JStr (js ''video''))) ex_loaded
     = Inr (ex_loaded\<lparr>filters := [(''topic'', JStr (js ''AI'')), (''type'', JStr (js ''video'')),
                                   (''conference'', JNull)]\<rparr>)
   \<and> ''topic'' \<noteq> ''type'' \<and> ''conference'' \<noteq> ''type''
   \<and> getProp (filters ex_loaded) ''topic'' = JStr (js ''AI'')
   \<and> getProp (filters ex_loaded) ''conference'' = JNull
   \<and> searchTerm ex_loaded = js ''a''"
proof -
  have s: "step asciiLower (FilterChange ''type'' (JStr (js ''video''))) ex_loaded
     = Inr (ex_loaded\<lparr>filters := [(''topic'', JStr (js ''AI'')), (''type'', JStr (js ''video'')),
                                   (''conference'', JNull)]\<rparr>)"
    by code_simp
  have g: "getProp [(''topic'', JStr (js ''AI'')), (''type'', JStr (js ''video'')),
                   (''conference'', JNull)] ''topic'' = JStr (js ''AI'')
        \<and> getProp [(''topic'', JStr (js ''AI'')), (''type'', JStr (js ''video'')),
                   (''conference'', JNull)] ''conference'' = JNull
        \<and> searchTerm ex_loaded = js ''a''"
    by code_simp
  have d: "''topic'' \<noteq> ''type'' \<and> ''conference'' \<noteq> ''type''"
    by simp
  from filter_change_frame [of "''type''" "JStr (js ''video'')" ex_loaded "''topic''", THEN conjunct2,
      THEN conjunct2, THEN conjunct2, THEN conjunct2, rule_format, OF s] d g
  have "getProp (filters ex_loaded) ''topic'' = JStr (js ''AI'')"
    by simp
  moreover
  from filter_change_frame [of "''type''" "JStr (js ''video'')" ex_loaded "''conference''",
      THEN conjunct2, THEN conjunct2, THEN conjunct2, THEN conjunct2, rule_format, OF s] d g
  have "getProp (filters ex_loaded) ''conference'' = JNull"
    by simp
  ultimately show ?thesis using s d g by blast
qed

end
